theory Spec2Isabelle
  imports Complex_Main
begin

section \<open>The dispatch simulation of the microgrid model\<close>

text \<open>
  The class \<open>AdvancedEconomicSim\<close> of \<open>Microgrid.py\<close> keeps the control flags, the two
  tariff prices and the arrays of the last run as fields of one object; its method
  \<open>update_logic\<close> recomputes the whole day from five scalars. The object is a record
  here, and \<open>update_logic\<close> takes the object and returns the updated one.

  Python's floats are the reals of the specification's data model: rounding, infinities
  and NaN are not modelled. The theorems below say which value each line computes and
  how the recorded values are related. The bounds on the battery charge hold only in
  exact arithmetic; they are kept apart, in the subsection on the clamps, and are not
  stated of the program. Dividing a Python float by zero raises
  \<open>ZeroDivisionError\<close>; that is the one way in which \<open>update_logic\<close> can raise, and it
  is an error value of the model. (A numpy scalar divided by zero would give NaN or an
  infinity with a warning instead; the two float types are not told apart.) The fields
  an exception leaves half-written are not kept: a failed run is only its error.
\<close>

datatype error = ZeroDivisionError

record sim =
  grid_active :: bool
  scheduler_active :: bool
  grid_buy_price :: real
  grid_sell_price :: real
  hours :: "nat list"
  solar :: "real list"
  wind :: "real list"
  load :: "real list"
  soc_history :: "real list"
  grid_flow :: "real list"
  total_cost :: real

subsection \<open>The shape functions (lines 43 to 45)\<close>

text \<open>
  numpy applies each expression to every element of \<open>hours\<close>; these are the
  expressions at one hour.
\<close>

definition solar_at :: "real \<Rightarrow> nat \<Rightarrow> real" where
  "solar_at s_mul h = s_mul * exp (- real_of_int ((int h - 12)\<^sup>2) / (2 * 3\<^sup>2))"

definition wind_at :: "real \<Rightarrow> nat \<Rightarrow> real" where
  "wind_at w_mul h = w_mul * (0.6 + 0.4 * sin (real h / 4))"

definition load_at :: "real \<Rightarrow> nat \<Rightarrow> real" where
  "load_at l_mul h =
     l_mul * (1 + 0.8 * exp (- real_of_int ((int h - 9)\<^sup>2) / 2)
                + 1.2 * exp (- real_of_int ((int h - 19)\<^sup>2) / 4))"

subsection \<open>One hour of the loop (lines 52 to 76)\<close>

definition py_div :: "real \<Rightarrow> real \<Rightarrow> error + real" where
  "py_div x y = (if y = 0 then Inl ZeroDivisionError else Inr (x / y))"

text \<open>
  The branch of lines 55 to 68: from the flags, the capacity, the hour, \<open>net\<close> and the
  charge before the hour, the charge after the hour and the hour's grid flow.
\<close>

definition dispatch :: "bool \<Rightarrow> bool \<Rightarrow> real \<Rightarrow> nat \<Rightarrow> real \<Rightarrow> real \<Rightarrow> real \<times> real" where
  "dispatch sched grid b_cap h net soc =
     (if sched \<and> 10 \<le> h \<and> h \<le> 14 then
        (let charge_power = min 25 (b_cap - soc)
         in (soc + charge_power, if grid then charge_power - net else 0))
      else if net > 0 then
        (let charge = min net (min (b_cap - soc) 20)
         in (soc + charge, if grid then - (net - charge) else 0))
      else
        (let needed = \<bar>net\<bar>;
             disch = min needed (min soc 20)
         in (soc - disch, if grid then needed - disch else 0)))"

definition hour_step :: "real \<Rightarrow> real \<Rightarrow> nat \<Rightarrow> sim \<times> real \<Rightarrow> error + sim \<times> real" where
  "hour_step d_mul b_cap h st =
     (case st of (self, soc) \<Rightarrow>
        let gen = solar self ! h + wind self ! h + d_mul;
            net = gen - load self ! h
        in case dispatch (scheduler_active self) (grid_active self) b_cap h net soc of
             (soc', flow) \<Rightarrow>
               (case py_div soc' b_cap of
                  Inl e \<Rightarrow> Inl e
                | Inr ratio \<Rightarrow>
                    Inr (self\<lparr>grid_flow := grid_flow self @ [flow],
                              soc_history := soc_history self @ [ratio * 100],
                              total_cost := total_cost self +
                                (if flow > 0 then flow * grid_buy_price self
                                 else flow * grid_sell_price self)\<rparr>,
                         soc')))"

subsection \<open>The run (lines 41 to 76)\<close>

text \<open>Lines 42 to 49: the profiles, the seed of the battery and the empty outputs.\<close>

definition begin_run :: "sim \<Rightarrow> real \<Rightarrow> real \<Rightarrow> real \<Rightarrow> real \<Rightarrow> sim \<times> real" where
  "begin_run self s_mul w_mul l_mul b_cap =
     (let hs = [0..<24]
      in (self\<lparr>hours := hs,
               solar := map (solar_at s_mul) hs,
               wind := map (wind_at w_mul) hs,
               load := map (load_at l_mul) hs,
               soc_history := [],
               grid_flow := [],
               total_cost := 0\<rparr>,
          b_cap * 0.5))"

text \<open>The \<open>for\<close> loop over a list of hours; an exception ends it.\<close>

fun loop :: "real \<Rightarrow> real \<Rightarrow> nat list \<Rightarrow> sim \<times> real \<Rightarrow> error + sim \<times> real" where
  "loop d_mul b_cap [] st = Inr st"
| "loop d_mul b_cap (h # hs) st =
     (case hour_step d_mul b_cap h st of
        Inl e \<Rightarrow> Inl e
      | Inr st' \<Rightarrow> loop d_mul b_cap hs st')"

text \<open>
  The object and the local \<open>soc\<close> after the first \<open>n\<close> hours of a run; \<open>update_logic\<close>
  is the run of all 24.
\<close>

definition run_hours ::
  "sim \<Rightarrow> real \<Rightarrow> real \<Rightarrow> real \<Rightarrow> real \<Rightarrow> real \<Rightarrow> nat \<Rightarrow> error + sim \<times> real" where
  "run_hours self s_mul w_mul d_mul l_mul b_cap n =
     loop d_mul b_cap [0..<n] (begin_run self s_mul w_mul l_mul b_cap)"

definition update_logic :: "sim \<Rightarrow> real \<Rightarrow> real \<Rightarrow> real \<Rightarrow> real \<Rightarrow> real \<Rightarrow> error + sim" where
  "update_logic self s_mul w_mul d_mul l_mul b_cap =
     (case run_hours self s_mul w_mul d_mul l_mul b_cap 24 of
        Inl e \<Rightarrow> Inl e
      | Inr (self', soc) \<Rightarrow> Inr self')"

text \<open>\<open>net\<close> of line 53 at hour \<open>h\<close>, as a function of the inputs.\<close>

definition net_at :: "real \<Rightarrow> real \<Rightarrow> real \<Rightarrow> real \<Rightarrow> nat \<Rightarrow> real" where
  "net_at s_mul w_mul d_mul l_mul h =
     solar_at s_mul h + wind_at w_mul h + d_mul - load_at l_mul h"

subsection \<open>The object's other methods\<close>

text \<open>
  The fields \<open>__init__\<close> sets before its first call of \<open>update_logic\<close> (lines 11 to 16);
  the arrays do not exist yet and are written by that call.
\<close>

definition fresh :: sim where
  "fresh = \<lparr>grid_active = True, scheduler_active = False,
            grid_buy_price = 0.15, grid_sell_price = 0.08,
            hours = [], solar = [], wind = [], load = [],
            soc_history = [], grid_flow = [], total_cost = 0\<rparr>"

definition toggle_grid :: "sim \<Rightarrow> sim" where
  "toggle_grid self = self\<lparr>grid_active := \<not> grid_active self\<rparr>"

definition toggle_scheduler :: "sim \<Rightarrow> sim" where
  "toggle_scheduler self = self\<lparr>scheduler_active := \<not> scheduler_active self\<rparr>"

definition reset_defaults :: "sim \<Rightarrow> sim" where
  "reset_defaults self = self\<lparr>grid_active := True, scheduler_active := False\<rparr>"

text \<open>
  The objects the program can hold: the one \<open>__init__\<close> has filled in when it calls
  \<open>update_logic\<close> for the first time (line 23), and what \<open>update_logic\<close> and the
  callbacks make of it. Each callback ends in \<open>update_plot\<close>, which calls
  \<open>update_logic\<close> with the sliders' values.
\<close>

inductive reachable :: "sim \<Rightarrow> bool" where
  fresh: "reachable fresh"
| update_plot: "reachable self \<Longrightarrow> update_logic self s w d l b = Inr self' \<Longrightarrow> reachable self'"
| toggle_grid: "reachable self \<Longrightarrow> reachable (toggle_grid self)"
| toggle_scheduler: "reachable self \<Longrightarrow> reachable (toggle_scheduler self)"
| reset_defaults: "reachable self \<Longrightarrow> reachable (reset_defaults self)"

subsection \<open>The run in closed form\<close>

text \<open>
  For the proofs: the charge after \<open>n\<close> hours and the grid flow of hour \<open>n\<close> as
  functions of \<open>n\<close>, and from them the whole state of the loop after \<open>n\<close> hours.
  \<open>run_hours_state_after\<close> below shows that the loop computes exactly this.
\<close>

primrec soc_seq :: "bool \<Rightarrow> bool \<Rightarrow> (nat \<Rightarrow> real) \<Rightarrow> real \<Rightarrow> nat \<Rightarrow> real" where
  "soc_seq sched grid net b_cap 0 = b_cap * 0.5"
| "soc_seq sched grid net b_cap (Suc n) =
     fst (dispatch sched grid b_cap n (net n) (soc_seq sched grid net b_cap n))"

definition flow_seq :: "bool \<Rightarrow> bool \<Rightarrow> (nat \<Rightarrow> real) \<Rightarrow> real \<Rightarrow> nat \<Rightarrow> real" where
  "flow_seq sched grid net b_cap n =
     snd (dispatch sched grid b_cap n (net n) (soc_seq sched grid net b_cap n))"

definition hour_cost :: "sim \<Rightarrow> real \<Rightarrow> real" where
  "hour_cost self flow =
     (if flow > 0 then flow * grid_buy_price self else flow * grid_sell_price self)"

definition state_after ::
  "sim \<Rightarrow> real \<Rightarrow> real \<Rightarrow> real \<Rightarrow> real \<Rightarrow> real \<Rightarrow> nat \<Rightarrow> sim \<times> real" where
  "state_after self s w d l b n =
     (let net = net_at s w d l;
          sched = scheduler_active self;
          grid = grid_active self
      in (self\<lparr>hours := [0..<24],
               solar := map (solar_at s) [0..<24],
               wind := map (wind_at w) [0..<24],
               load := map (load_at l) [0..<24],
               soc_history := map (\<lambda>k. soc_seq sched grid net b (Suc k) / b * 100) [0..<n],
               grid_flow := map (flow_seq sched grid net b) [0..<n],
               total_cost := (\<Sum>k<n. hour_cost self (flow_seq sched grid net b k))\<rparr>,
          soc_seq sched grid net b n))"

section \<open>Properties of the loop\<close>

lemma loop_append:
  "loop d b (xs @ ys) st =
     (case loop d b xs st of Inl e \<Rightarrow> Inl e | Inr st' \<Rightarrow> loop d b ys st')"
  by (induction xs arbitrary: st) (auto split: sum.splits)

lemma run_hours_0: "run_hours self s w d l b 0 = Inr (begin_run self s w l b)"
  by (simp add: run_hours_def)

lemma run_hours_Suc:
  "run_hours self s w d l b (Suc n) =
     (case run_hours self s w d l b n of Inl e \<Rightarrow> Inl e | Inr st \<Rightarrow> hour_step d b n st)"
  by (simp add: run_hours_def loop_append split: sum.splits)

lemma hour_step_state_after:
  assumes "b \<noteq> 0" and "n < 24"
  shows "hour_step d b n (state_after self s w d l b n) = Inr (state_after self s w d l b (Suc n))"
  using assms
  by (simp add: hour_step_def state_after_def Let_def py_div_def flow_seq_def hour_cost_def
      net_at_def split: prod.splits)

lemma run_hours_state_after:
  assumes "b \<noteq> 0" and "n \<le> 24"
  shows "run_hours self s w d l b n = Inr (state_after self s w d l b n)"
  using assms(2)
proof (induction n)
  case 0
  show ?case by (simp add: run_hours_0 begin_run_def state_after_def Let_def)
next
  case (Suc n)
  then show ?case
    by (simp add: run_hours_Suc hour_step_state_after [OF assms(1)])
qed


lemma update_logic_state_after:
  assumes "b \<noteq> 0"
  shows "update_logic self s w d l b = Inr (fst (state_after self s w d l b 24))"
  by (simp add: update_logic_def run_hours_state_after [OF assms] split: prod.splits)

lemma update_logic_zero_cap: "update_logic self s w d l 0 = Inl ZeroDivisionError"
proof -
  have "run_hours self s w d l 0 (Suc 0) = Inl ZeroDivisionError"
    by (simp add: run_hours_Suc run_hours_0 hour_step_def py_div_def Let_def
        split: prod.splits)
  moreover have "[0..<24] = [0..<Suc 0] @ [Suc 0..<24]"
    by (simp add: upt_rec)
  ultimately have "run_hours self s w d l 0 24 = Inl ZeroDivisionError"
    unfolding run_hours_def by (simp only: loop_append sum.case)
  then show ?thesis by (simp add: update_logic_def)
qed

lemma dispatch_islanded: "snd (dispatch sched False b h net soc) = 0"
  by (simp add: dispatch_def Let_def)


lemma state_after_grid_flow:
  assumes "h < n"
  shows "grid_flow (fst (state_after self s w d l b n)) ! h =
           snd (dispatch (scheduler_active self) (grid_active self) b h (net_at s w d l h)
                  (snd (state_after self s w d l b h)))"
  using assms by (simp add: state_after_def Let_def flow_seq_def)

lemma state_after_soc_Suc:
  "snd (state_after self s w d l b (Suc h)) =
     fst (dispatch (scheduler_active self) (grid_active self) b h (net_at s w d l h)
            (snd (state_after self s w d l b h)))"
  by (simp add: state_after_def Let_def)

lemma state_after_soc_history:
  assumes "h < n"
  shows "soc_history (fst (state_after self s w d l b n)) ! h =
           snd (state_after self s w d l b (Suc h)) / b * 100"
  using assms by (simp add: state_after_def Let_def)

lemma state_after_total_cost:
  "total_cost (fst (state_after self s w d l b n)) =
     (\<Sum>h<n. hour_cost self (grid_flow (fst (state_after self s w d l b n)) ! h))"
  by (simp add: state_after_def Let_def)


lemma state_after_fields:
  "grid_active (fst (state_after self s w d l b n)) = grid_active self"
  "scheduler_active (fst (state_after self s w d l b n)) = scheduler_active self"
  "grid_buy_price (fst (state_after self s w d l b n)) = grid_buy_price self"
  "grid_sell_price (fst (state_after self s w d l b n)) = grid_sell_price self"
  "length (grid_flow (fst (state_after self s w d l b n))) = n"
  "length (soc_history (fst (state_after self s w d l b n))) = n"
  by (simp_all add: state_after_def Let_def)

lemma update_logic_prices:
  assumes "update_logic self s w d l b = Inr r"
  shows "grid_buy_price r = grid_buy_price self \<and> grid_sell_price r = grid_sell_price self"
proof (cases "b = 0")
  case True
  with assms show ?thesis by (simp add: update_logic_zero_cap)
next
  case False
  with assms show ?thesis by (auto simp: update_logic_state_after state_after_fields)
qed

lemma reachable_prices:
  assumes "reachable self"
  shows "grid_buy_price self = 0.15 \<and> grid_sell_price self = 0.08"
  using assms
proof (induction rule: reachable.induct)
  case fresh
  show ?case by (simp add: fresh_def)
next
  case (update_plot self s w d l b self')
  then show ?case using update_logic_prices [of self s w d l b self'] by simp
next
  case (toggle_grid self)
  then show ?case by (simp add: toggle_grid_def)
next
  case (toggle_scheduler self)
  then show ?case by (simp add: toggle_scheduler_def)
next
  case (reset_defaults self)
  then show ?case by (simp add: reset_defaults_def)
qed

lemma dispatch_reactive:
  assumes "\<not> (sched \<and> 10 \<le> h \<and> h \<le> 14)"
  shows "dispatch sched grid b h net soc =
           (if net > 0
            then (soc + min net (min (b - soc) 20),
                  if grid then - (net - min net (min (b - soc) 20)) else 0)
            else (soc - min \<bar>net\<bar> (min soc 20),
                  if grid then \<bar>net\<bar> - min \<bar>net\<bar> (min soc 20) else 0))"
  unfolding dispatch_def Let_def by (simp only: assms if_False)

lemma load_at_ge_base:
  assumes "0 \<le> l_mul"
  shows "l_mul \<le> load_at l_mul h"
proof -
  let ?morning = "exp (- real_of_int ((int h - 9)\<^sup>2) / 2)"
  let ?evening = "exp (- real_of_int ((int h - 19)\<^sup>2) / 4)"
  have "0 \<le> 0.8 * ?morning" and "0 \<le> 1.2 * ?evening"
    by simp_all
  then have "1 \<le> 1 + 0.8 * ?morning + 1.2 * ?evening"
    by linarith
  from mult_left_mono [OF this assms] show ?thesis
    by (simp add: load_at_def)
qed

subsection \<open>The clamps in exact arithmetic\<close>

text \<open>
  Over the reals the clamped amounts keep the charge between \<open>0\<close> and the capacity:
  a charge is at most the headroom \<open>b_cap - soc\<close> and a discharge at most \<open>soc\<close>.
  This is a fact about the dispatch rule, not about the numbers the program stores.
  The program computes in binary64: the headroom \<open>b_cap - soc\<close> is rounded, and so is
  the sum \<open>soc + charge\<close>, which can land one unit in the last place above the
  capacity (and the recorded percentage above \<open>100\<close>); sums of large finite
  multipliers overflow to infinity and \<open>net\<close> becomes NaN. None of the lemmas of this
  subsection is used for a statement about the program's stored values.
\<close>

lemma dispatch_bounds:
  assumes "0 \<le> soc" and "soc \<le> b"
  shows "0 \<le> fst (dispatch sched grid b h net soc) \<and> fst (dispatch sched grid b h net soc) \<le> b"
  using assms by (auto simp: dispatch_def Let_def min_def)

lemma soc_seq_bounds:
  assumes "0 \<le> b"
  shows "0 \<le> soc_seq sched grid net b n \<and> soc_seq sched grid net b n \<le> b"
proof (induction n)
  case 0
  from assms show ?case by simp
next
  case (Suc n)
  then show ?case by (simp add: dispatch_bounds)
qed

lemma state_after_bounds:
  assumes "0 \<le> b"
  shows "0 \<le> snd (state_after self s w d l b n) \<and> snd (state_after self s w d l b n) \<le> b"
  using soc_seq_bounds [OF assms] by (simp add: state_after_def Let_def)

section \<open>The claims\<close>

text \<open>
  Claim C1, as the code has it. \<open>update_logic\<close> checks nothing before its loop and knows
  no \<open>InvalidConfiguration\<close> error: for every battery capacity other than zero, so for
  every input that satisfies the invariants of the data model and for every negative
  capacity as well, the run completes all 24 hours and returns its 24 percentages and
  24 grid flows.
\<close>

theorem update_logic_no_capacity_check:
  assumes "b_cap \<noteq> 0"
  shows "\<exists>r. update_logic self s_mul w_mul d_mul l_mul b_cap = Inr r \<and>
             length (soc_history r) = 24 \<and> length (grid_flow r) = 24"
  by (simp add: update_logic_state_after [OF assms] state_after_fields)

theorem update_logic_no_capacity_check_witness:
  "(\<exists>r. update_logic fresh 50 20 10 30 100 = Inr r \<and>
        length (soc_history r) = 24 \<and> length (grid_flow r) = 24) \<and>
   (\<exists>r. update_logic fresh 50 20 10 30 (- 10) = Inr r \<and>
        length (soc_history r) = 24 \<and> length (grid_flow r) = 24)"
  using update_logic_no_capacity_check [of 100 fresh 50 20 10 30]
    update_logic_no_capacity_check [of "- 10" fresh 50 20 10 30]
  by simp

text \<open>
  The claim as the specification words it asks for an error at every capacity
  \<open>\<le> 0\<close>. At capacity \<open>-10\<close> with diesel \<open>10\<close> and no other generation or load
  the run returns: the battery is seeded at \<open>-5\<close>, "charges" by \<open>-5\<close> in hour 0 and
  reports 100 percent all day.
\<close>

theorem update_logic_negative_capacity_counterexample:
  "update_logic fresh 0 0 10 0 (- 10) =
     Inr (fresh\<lparr>hours := [0..<24],
               solar := replicate 24 0, wind := replicate 24 0, load := replicate 24 0,
               soc_history := replicate 24 100,
               grid_flow := - 15 # replicate 23 (- 10),
               total_cost := - 19.6\<rparr>)"
  by (simp add: update_logic_def run_hours_def begin_run_def hour_step_def dispatch_def
      py_div_def fresh_def solar_at_def wind_at_def load_at_def Let_def upt_rec
      eval_nat_numeral)

text \<open>
  Claim C3. With the grid disconnected, all 24 recorded grid flows are \<open>0\<close>, in each of
  the three branches, and the total cost is \<open>0\<close>.
\<close>

theorem islanded_no_grid_flow:
  assumes "\<not> grid_active self" and "0 < b_cap"
  shows "\<exists>r. update_logic self s_mul w_mul d_mul l_mul b_cap = Inr r \<and>
             grid_flow r = replicate 24 0 \<and> total_cost r = 0"
proof -
  let ?r = "fst (state_after self s_mul w_mul d_mul l_mul b_cap 24)"
  from assms(2) have run: "update_logic self s_mul w_mul d_mul l_mul b_cap = Inr ?r"
    by (simp add: update_logic_state_after)
  have flow: "grid_flow ?r ! h = 0" if "h < 24" for h
    using that assms(1) by (simp add: state_after_grid_flow dispatch_islanded)
  have "grid_flow ?r = replicate 24 0"
    by (rule nth_equalityI) (simp_all add: state_after_fields flow)
  moreover have "total_cost ?r = 0"
    by (subst state_after_total_cost) (simp add: flow hour_cost_def)
  ultimately show ?thesis using run by blast
qed

theorem islanded_no_grid_flow_witness:
  "\<exists>r. update_logic (toggle_grid fresh) 50 20 10 30 100 = Inr r \<and>
       grid_flow r = replicate 24 0 \<and> total_cost r = 0"
  using islanded_no_grid_flow [of "toggle_grid fresh" 100 50 20 10 30]
  by (simp add: toggle_grid_def fresh_def)

text \<open>
  Claim C4. With the scheduler active, in every hour \<open>h\<close> of \<open>10..14\<close> the charge rises
  by \<open>min 25 (b_cap - soc_before)\<close> whatever the sign of \<open>net\<close>, and with the grid
  connected the hour's recorded grid flow is that charge power minus \<open>net\<close>.
\<close>

theorem scheduler_forces_charge:
  assumes "0 < b_cap" and "scheduler_active self" and "10 \<le> h" and "h \<le> 14"
  shows "\<exists>self1 soc_before self2 soc_after r.
           run_hours self s_mul w_mul d_mul l_mul b_cap h = Inr (self1, soc_before) \<and>
           run_hours self s_mul w_mul d_mul l_mul b_cap (Suc h) = Inr (self2, soc_after) \<and>
           update_logic self s_mul w_mul d_mul l_mul b_cap = Inr r \<and>
           soc_after - soc_before = min 25 (b_cap - soc_before) \<and>
           (grid_active self \<longrightarrow>
              grid_flow r ! h = min 25 (b_cap - soc_before) - net_at s_mul w_mul d_mul l_mul h)"
proof -
  let ?st = "state_after self s_mul w_mul d_mul l_mul b_cap"
  from assms have "run_hours self s_mul w_mul d_mul l_mul b_cap h = Inr (fst (?st h), snd (?st h))"
    by (simp add: run_hours_state_after)
  moreover from assms
  have "run_hours self s_mul w_mul d_mul l_mul b_cap (Suc h) = Inr (fst (?st (Suc h)), snd (?st (Suc h)))"
    by (simp add: run_hours_state_after)
  moreover from assms(1) have "update_logic self s_mul w_mul d_mul l_mul b_cap = Inr (fst (?st 24))"
    by (simp add: update_logic_state_after)
  moreover from assms have "snd (?st (Suc h)) - snd (?st h) = min 25 (b_cap - snd (?st h))"
    by (simp add: state_after_soc_Suc dispatch_def Let_def)
  moreover from assms have "grid_active self \<longrightarrow>
      grid_flow (fst (?st 24)) ! h = min 25 (b_cap - snd (?st h)) - net_at s_mul w_mul d_mul l_mul h"
    by (simp add: state_after_grid_flow dispatch_def Let_def)
  ultimately show ?thesis by blast
qed

theorem scheduler_forces_charge_witness:
  "\<exists>self1 self2 r.
     run_hours (toggle_scheduler fresh) 0 0 10 0 500 10 = Inr (self1, 350) \<and>
     run_hours (toggle_scheduler fresh) 0 0 10 0 500 (Suc 10) = Inr (self2, 375) \<and>
     update_logic (toggle_scheduler fresh) 0 0 10 0 500 = Inr r \<and>
     grid_flow r ! 10 = 15"
proof -
  have sched: "scheduler_active (toggle_scheduler fresh)"
    and grid: "grid_active (toggle_scheduler fresh)"
    by (simp_all add: toggle_scheduler_def fresh_def)
  have net: "net_at 0 0 10 0 10 = 10"
    by (simp add: net_at_def solar_at_def wind_at_def load_at_def)
  have before: "snd (projr (run_hours (toggle_scheduler fresh) 0 0 10 0 500 10)) = 350"
    by (simp add: run_hours_def begin_run_def hour_step_def dispatch_def py_div_def
        fresh_def toggle_scheduler_def solar_at_def wind_at_def load_at_def Let_def upt_rec
        eval_nat_numeral)
  from scheduler_forces_charge [of 500 "toggle_scheduler fresh" 10 0 0 10 0] sched
  obtain self1 soc_before self2 soc_after r where
    r1: "run_hours (toggle_scheduler fresh) 0 0 10 0 500 10 = Inr (self1, soc_before)" and
    r2: "run_hours (toggle_scheduler fresh) 0 0 10 0 500 (Suc 10) = Inr (self2, soc_after)" and
    r3: "update_logic (toggle_scheduler fresh) 0 0 10 0 500 = Inr r" and
    step: "soc_after - soc_before = min 25 (500 - soc_before)" and
    flow: "grid_active (toggle_scheduler fresh) \<longrightarrow>
             grid_flow r ! 10 = min 25 (500 - soc_before) - net_at 0 0 10 0 10"
    by auto
  from before r1 have "soc_before = 350" by simp
  with step flow grid net have "soc_after = 375" and "grid_flow r ! 10 = 15"
    by simp_all
  with r1 r2 r3 \<open>soc_before = 350\<close> show ?thesis by blast
qed

text \<open>
  Claim C5. In every reactive hour (scheduler inactive, or \<open>h\<close> outside \<open>10..14\<close>):
  with \<open>net > 0\<close> the battery charges by \<open>min net (b_cap - soc) 20\<close> and the grid flow is
  \<open>- (net - charge)\<close> when the grid is connected; with \<open>net \<le> 0\<close> it discharges by
  \<open>min \<bar>net\<bar> soc 20\<close> and the grid flow is \<open>\<bar>net\<bar> - discharge\<close> when the grid is
  connected.
\<close>

theorem reactive_dispatch:
  assumes "0 < b_cap" and "h < 24" and "\<not> (scheduler_active self \<and> 10 \<le> h \<and> h \<le> 14)"
  shows "\<exists>self1 soc_before self2 soc_after r.
           run_hours self s_mul w_mul d_mul l_mul b_cap h = Inr (self1, soc_before) \<and>
           run_hours self s_mul w_mul d_mul l_mul b_cap (Suc h) = Inr (self2, soc_after) \<and>
           update_logic self s_mul w_mul d_mul l_mul b_cap = Inr r \<and>
           (let net = net_at s_mul w_mul d_mul l_mul h;
                charge = min net (min (b_cap - soc_before) 20);
                disch = min \<bar>net\<bar> (min soc_before 20)
            in (if net > 0
                then soc_after = soc_before + charge \<and>
                     (grid_active self \<longrightarrow> grid_flow r ! h = - (net - charge))
                else soc_after = soc_before - disch \<and>
                     (grid_active self \<longrightarrow> grid_flow r ! h = \<bar>net\<bar> - disch)))"
proof -
  let ?st = "state_after self s_mul w_mul d_mul l_mul b_cap"
  let ?net = "net_at s_mul w_mul d_mul l_mul h"
  from assms have "run_hours self s_mul w_mul d_mul l_mul b_cap h = Inr (fst (?st h), snd (?st h))"
    by (simp add: run_hours_state_after)
  moreover from assms
  have "run_hours self s_mul w_mul d_mul l_mul b_cap (Suc h) = Inr (fst (?st (Suc h)), snd (?st (Suc h)))"
    by (simp add: run_hours_state_after)
  moreover from assms(1) have "update_logic self s_mul w_mul d_mul l_mul b_cap = Inr (fst (?st 24))"
    by (simp add: update_logic_state_after)
  moreover have "let net = ?net;
                charge = min net (min (b_cap - snd (?st h)) 20);
                disch = min \<bar>net\<bar> (min (snd (?st h)) 20)
            in (if net > 0
                then snd (?st (Suc h)) = snd (?st h) + charge \<and>
                     (grid_active self \<longrightarrow> grid_flow (fst (?st 24)) ! h = - (net - charge))
                else snd (?st (Suc h)) = snd (?st h) - disch \<and>
                     (grid_active self \<longrightarrow> grid_flow (fst (?st 24)) ! h = \<bar>net\<bar> - disch))"
    using assms(2)
    by (simp add: state_after_soc_Suc state_after_grid_flow dispatch_reactive [OF assms(3)] Let_def)
  ultimately show ?thesis by blast
qed

theorem reactive_dispatch_witness:
  "(\<exists>self2 r.
      run_hours fresh 0 0 10 0 100 (Suc 0) = Inr (self2, 60) \<and>
      update_logic fresh 0 0 10 0 100 = Inr r \<and> grid_flow r ! 0 = 0) \<and>
   (\<exists>self2 r.
      run_hours fresh 0 0 0 30 100 (Suc 0) = Inr (self2, 30) \<and>
      update_logic fresh 0 0 0 30 100 = Inr r \<and> grid_flow r ! 0 = load_at 30 0 - 20)"
proof -
  have flags: "\<not> (scheduler_active fresh \<and> 10 \<le> (0::nat) \<and> (0::nat) \<le> 14)"
    and grid: "grid_active fresh"
    by (simp_all add: fresh_def)
  have seed: "run_hours fresh s w d l 100 0 = Inr (self1, soc) \<Longrightarrow> soc = 50" for s w d l self1 soc
    by (simp add: run_hours_def begin_run_def Let_def)
  have surplus: "net_at 0 0 10 0 0 = 10"
    by (simp add: net_at_def solar_at_def wind_at_def load_at_def)
  have deficit: "net_at 0 0 0 30 0 = - load_at 30 0"
    by (simp add: net_at_def solar_at_def wind_at_def)
  have big: "30 \<le> load_at 30 0"
    using load_at_ge_base [of 30 0] by simp
  from reactive_dispatch [of 100 0 fresh 0 0 10 0] flags
  obtain self1 soc_before self2 soc_after r where
    "run_hours fresh 0 0 10 0 100 0 = Inr (self1, soc_before)" and
    a2: "run_hours fresh 0 0 10 0 100 (Suc 0) = Inr (self2, soc_after)" and
    a3: "update_logic fresh 0 0 10 0 100 = Inr r" and
    a4: "let net = net_at 0 0 10 0 0;
                charge = min net (min (100 - soc_before) 20);
                disch = min \<bar>net\<bar> (min soc_before 20)
            in (if net > 0
                then soc_after = soc_before + charge \<and>
                     (grid_active fresh \<longrightarrow> grid_flow r ! 0 = - (net - charge))
                else soc_after = soc_before - disch \<and>
                     (grid_active fresh \<longrightarrow> grid_flow r ! 0 = \<bar>net\<bar> - disch))"
    by auto
  then have "soc_before = 50" using seed by blast
  with a4 grid surplus have "soc_after = 60" and "grid_flow r ! 0 = 0"
    by (simp_all add: Let_def)
  with a2 a3 have first: "\<exists>self2 r.
      run_hours fresh 0 0 10 0 100 (Suc 0) = Inr (self2, 60) \<and>
      update_logic fresh 0 0 10 0 100 = Inr r \<and> grid_flow r ! 0 = 0"
    by blast
  from reactive_dispatch [of 100 0 fresh 0 0 0 30] flags
  obtain self1 soc_before self2 soc_after r where
    "run_hours fresh 0 0 0 30 100 0 = Inr (self1, soc_before)" and
    b2: "run_hours fresh 0 0 0 30 100 (Suc 0) = Inr (self2, soc_after)" and
    b3: "update_logic fresh 0 0 0 30 100 = Inr r" and
    b4: "let net = net_at 0 0 0 30 0;
                charge = min net (min (100 - soc_before) 20);
                disch = min \<bar>net\<bar> (min soc_before 20)
            in (if net > 0
                then soc_after = soc_before + charge \<and>
                     (grid_active fresh \<longrightarrow> grid_flow r ! 0 = - (net - charge))
                else soc_after = soc_before - disch \<and>
                     (grid_active fresh \<longrightarrow> grid_flow r ! 0 = \<bar>net\<bar> - disch))"
    by auto
  then have "soc_before = 50" using seed by blast
  with b4 grid deficit big have "soc_after = 30" and "grid_flow r ! 0 = load_at 30 0 - 20"
    by (simp_all add: Let_def)
  with b2 b3 have "\<exists>self2 r.
      run_hours fresh 0 0 0 30 100 (Suc 0) = Inr (self2, 30) \<and>
      update_logic fresh 0 0 0 30 100 = Inr r \<and> grid_flow r ! 0 = load_at 30 0 - 20"
    by blast
  with first show ?thesis by blast
qed

text \<open>
  Claim C6. On every object the program can hold the two prices are \<open>0.15\<close> and
  \<open>0.08\<close>, and the total cost of a run is the sum over the 24 hours of the grid flow
  times \<open>0.15\<close> where the flow is positive and times \<open>0.08\<close> where it is not.
\<close>

theorem total_cost_tariff:
  assumes "reachable self" and "0 < b_cap"
  shows "\<exists>r. update_logic self s_mul w_mul d_mul l_mul b_cap = Inr r \<and>
             grid_buy_price r = 0.15 \<and> grid_sell_price r = 0.08 \<and>
             total_cost r =
               (\<Sum>h<24. if grid_flow r ! h > 0 then grid_flow r ! h * 0.15
                        else grid_flow r ! h * 0.08)"
proof -
  let ?r = "fst (state_after self s_mul w_mul d_mul l_mul b_cap 24)"
  from assms(2) have run: "update_logic self s_mul w_mul d_mul l_mul b_cap = Inr ?r"
    by (simp add: update_logic_state_after)
  note prices = reachable_prices [OF assms(1)]
  have "total_cost ?r =
      (\<Sum>h<24. if grid_flow ?r ! h > 0 then grid_flow ?r ! h * 0.15 else grid_flow ?r ! h * 0.08)"
    by (subst state_after_total_cost)
      (simp only: hour_cost_def conjunct1 [OF prices] conjunct2 [OF prices])
  moreover have "grid_buy_price ?r = 0.15 \<and> grid_sell_price ?r = 0.08"
    by (simp add: state_after_fields prices)
  ultimately show ?thesis using run by blast
qed

theorem total_cost_tariff_witness:
  "reachable (toggle_scheduler fresh) \<and>
   (\<exists>r. update_logic (toggle_scheduler fresh) 50 20 10 30 100 = Inr r \<and>
        grid_buy_price r = 0.15 \<and> grid_sell_price r = 0.08 \<and>
        total_cost r =
          (\<Sum>h<24. if grid_flow r ! h > 0 then grid_flow r ! h * 0.15
                   else grid_flow r ! h * 0.08))"
proof -
  have r: "reachable (toggle_scheduler fresh)"
    by (intro reachable.toggle_scheduler reachable.fresh)
  from total_cost_tariff [OF r, of 100 50 20 10 30] r show ?thesis by simp
qed

text \<open>
  Claim C7. Whatever the object holds from an earlier run, the loop starts from the
  charge \<open>0.5 * b_cap\<close>, and the percentage recorded for hour \<open>h\<close> is
  \<open>100 * soc / b_cap\<close> for the charge \<open>soc\<close> after that hour's update.
\<close>

theorem seed_and_percentage:
  assumes "0 < b_cap" and "h < 24"
  shows "\<exists>self0 self' soc r.
           run_hours self s_mul w_mul d_mul l_mul b_cap 0 = Inr (self0, 0.5 * b_cap) \<and>
           run_hours self s_mul w_mul d_mul l_mul b_cap (Suc h) = Inr (self', soc) \<and>
           update_logic self s_mul w_mul d_mul l_mul b_cap = Inr r \<and>
           soc_history r ! h = 100 * soc / b_cap"
proof -
  let ?st = "state_after self s_mul w_mul d_mul l_mul b_cap"
  have "run_hours self s_mul w_mul d_mul l_mul b_cap 0 =
          Inr (fst (begin_run self s_mul w_mul l_mul b_cap), 0.5 * b_cap)"
    by (simp add: run_hours_0 begin_run_def Let_def)
  moreover from assms
  have "run_hours self s_mul w_mul d_mul l_mul b_cap (Suc h) = Inr (fst (?st (Suc h)), snd (?st (Suc h)))"
    by (simp add: run_hours_state_after)
  moreover from assms(1) have "update_logic self s_mul w_mul d_mul l_mul b_cap = Inr (fst (?st 24))"
    by (simp add: update_logic_state_after)
  moreover from assms(2) have "soc_history (fst (?st 24)) ! h = 100 * snd (?st (Suc h)) / b_cap"
    by (simp add: state_after_soc_history)
  ultimately show ?thesis by blast
qed

theorem seed_and_percentage_witness:
  "\<exists>self0 self' soc r.
     run_hours fresh 50 20 10 30 100 0 = Inr (self0, 50) \<and>
     run_hours fresh 50 20 10 30 100 (Suc 0) = Inr (self', soc) \<and>
     update_logic fresh 50 20 10 30 100 = Inr r \<and>
     soc_history r ! 0 = soc"
  using seed_and_percentage [of 100 0 fresh 50 20 10 30] by simp

text \<open>
  Claim C8. For a wind multiplier \<open>\<ge> 0\<close> and every hour \<open>h\<close> of \<open>0..23\<close>, the wind
  array holds \<open>w_mul * (0.6 + 0.4 * sin (h / 4))\<close> at \<open>h\<close>, which lies between \<open>0.2\<close>
  times and \<open>1.0\<close> times the multiplier.
\<close>

theorem wind_profile_bounds:
  assumes "0 \<le> w_mul" and "h < 24"
  shows "wind (fst (begin_run self s_mul w_mul l_mul b_cap)) ! h =
           w_mul * (0.6 + 0.4 * sin (real h / 4)) \<and>
         0.2 * w_mul \<le> wind (fst (begin_run self s_mul w_mul l_mul b_cap)) ! h \<and>
         wind (fst (begin_run self s_mul w_mul l_mul b_cap)) ! h \<le> 1.0 * w_mul"
proof -
  let ?shape = "0.6 + 0.4 * sin (real h / 4)"
  have eq: "wind (fst (begin_run self s_mul w_mul l_mul b_cap)) ! h = w_mul * ?shape"
    using assms(2) by (simp add: begin_run_def Let_def wind_at_def)
  have "- 1 \<le> sin (real h / 4)" and "sin (real h / 4) \<le> 1"
    by simp_all
  then have lo: "0.2 \<le> ?shape" and hi: "?shape \<le> 1"
    by linarith+
  have "w_mul * 0.2 \<le> w_mul * ?shape"
    using lo assms(1) by (rule mult_left_mono)
  moreover have "w_mul * ?shape \<le> w_mul * 1"
    using hi assms(1) by (rule mult_left_mono)
  ultimately have "0.2 * w_mul \<le> w_mul * ?shape \<and> w_mul * ?shape \<le> 1.0 * w_mul"
    by (simp add: mult.commute)
  with eq show ?thesis by (simp only: simp_thms)
qed

theorem wind_profile_bounds_witness:
  "wind (fst (begin_run fresh 50 20 30 100)) ! 0 = 12 \<and>
   0.2 * 20 \<le> wind (fst (begin_run fresh 50 20 30 100)) ! 0 \<and>
   wind (fst (begin_run fresh 50 20 30 100)) ! 0 \<le> 1.0 * 20"
  using wind_profile_bounds [of 20 0 fresh 50 30 100] by simp



end
